theory Spec2Isabelle
  imports Main
begin

section \<open>Framing-control analytics: a shallow embedding of libanalyzer.py\<close>

text \<open>
  The analyzer normalises the values of the legacy header (X-Frame-Options, XFO) and of
  the modern header (the CSP framing directive), replays the enforcement algorithm of
  five browser families, and compares the enforced values in a partial order.

  Python values are modelled as they are built by the code:
  \<^item> a Python \<open>str\<close> is a \<open>string\<close>; every character is a code point below 256;
  \<^item> an exception is the left summand of \<open>error + 'a\<close>;
  \<^item> \<open>urllib.parse.urlparse\<close> belongs to the Python library, not to the analyzer.
    It is a parameter \<open>up\<close> of every function that calls it. It may raise
    (\<open>Inl\<close>), and of its result only the attributes the analyzer reads are kept:
    \<open>scheme\<close> (a \<open>str\<close>) and \<open>hostname\<close> (a \<open>str\<close> or \<open>None\<close>).
\<close>

subsection \<open>Exceptions\<close>

datatype error = IndexError | AttributeError | KeyError | ValueError | SystemExit

definition ebind :: "error + 'a \<Rightarrow> ('a \<Rightarrow> error + 'b) \<Rightarrow> error + 'b" where
  "ebind m f = (case m of Inl e \<Rightarrow> Inl e | Inr x \<Rightarrow> f x)"

text \<open>\<open>xs[i]\<close> for a non-negative constant index: out of range raises IndexError.\<close>

definition item :: "'a list \<Rightarrow> nat \<Rightarrow> error + 'a" where
  "item xs i = (if i < length xs then Inr (xs ! i) else Inl IndexError)"

subsection \<open>The string methods the analyzer calls\<close>

definition startswith :: "string \<Rightarrow> string \<Rightarrow> bool" where
  "startswith s p = (take (length p) s = p)"

definition endswith :: "string \<Rightarrow> string \<Rightarrow> bool" where
  "endswith s p = (length p \<le> length s \<and> drop (length s - length p) s = p)"

text \<open>\<open>str.isspace\<close> on one character, for the code points below 256.\<close>

definition isspace :: "char \<Rightarrow> bool" where
  "isspace c = (of_char c \<in> {9, 10, 11, 12, 13, 28, 29, 30, 31, 32, 133, 160 :: nat})"

text \<open>\<open>s.strip()\<close>: leading and trailing whitespace removed.\<close>

definition strip :: "string \<Rightarrow> string" where
  "strip s = rev (dropWhile isspace (rev (dropWhile isspace s)))"

text \<open>\<open>s.lower()\<close> for the code points below 256: A-Z and the accented capitals.\<close>

definition lower_chr :: "char \<Rightarrow> char" where
  "lower_chr c =
     (let n = (of_char c :: nat)
      in if (65 \<le> n \<and> n \<le> 90) \<or> (192 \<le> n \<and> n \<le> 222 \<and> n \<noteq> 215)
         then char_of (n + 32) else c)"

definition lower :: "string \<Rightarrow> string" where
  "lower s = map lower_chr s"

text \<open>
  \<open>s.split(sep)\<close> for a separator of one character: empty tokens are kept, and the
  result has at least one token.
\<close>

fun split_chr :: "char \<Rightarrow> string \<Rightarrow> string list" where
  "split_chr c [] = [[]]"
| "split_chr c (x # xs) =
     (let r = split_chr c xs
      in if x = c then [] # r else (x # hd r) # tl r)"

text \<open>
  \<open>s.split()\<close> without a separator: runs of whitespace separate, empty tokens are
  dropped. \<open>cur\<close> is the token being read.
\<close>

fun split_ws_from :: "string \<Rightarrow> string \<Rightarrow> string list" where
  "split_ws_from cur [] = (if cur = [] then [] else [cur])"
| "split_ws_from cur (x # xs) =
     (if isspace x
      then (if cur = [] then split_ws_from [] xs else cur # split_ws_from [] xs)
      else split_ws_from (cur @ [x]) xs)"

definition split_ws :: "string \<Rightarrow> string list" where
  "split_ws s = split_ws_from [] s"

text \<open>\<open>sep.join(ts)\<close>.\<close>

fun join :: "string \<Rightarrow> string list \<Rightarrow> string" where
  "join sep [] = []"
| "join sep [t] = t"
| "join sep (t # ts) = t @ sep @ join sep ts"

subsection \<open>Origins\<close>

record parse_result =
  scheme :: string
  hostname :: "string option"

type_synonym urlparse = "string \<Rightarrow> error + parse_result"

text \<open>
  The body of the \<open>try\<close> in \<open>is_valid_origin\<close>. With \<open>hostname\<close> equal to \<open>None\<close>,
  \<open>None != ''\<close> holds and \<open>None.startswith\<close> raises AttributeError.
\<close>

definition is_valid_origin_try :: "parse_result \<Rightarrow> error + bool" where
  "is_valid_origin_try uo =
     (let valid_scheme = (scheme uo = ''http'' \<or> scheme uo = ''https'')
      in if hostname uo \<noteq> Some []
         then (case hostname uo of
                 None \<Rightarrow> Inl AttributeError
               | Some h \<Rightarrow> Inr (valid_scheme \<and> \<not> startswith h ''*.''))
         else Inr (valid_scheme \<and> False))"

text \<open>The \<open>except Exception\<close> clause prints and returns False.\<close>

definition is_valid_origin :: "parse_result \<Rightarrow> bool" where
  "is_valid_origin uo = (case is_valid_origin_try uo of Inl e \<Rightarrow> False | Inr b \<Rightarrow> b)"

subsection \<open>Parsing and normalising the legacy header\<close>

definition parse_xfo :: "string \<Rightarrow> string option" where
  "parse_xfo s = (if s = ''WARN_NO_HEADER'' then None else Some (strip s))"

text \<open>
  The values \<open>normalize_xfo\<close> returns: the strings "JUNK", "DENY" and "ALLOW-JUNK", and
  the pairs ("SAMEORIGIN", (scheme, hostname)) and ("ALLOW-FROM", (scheme, hostname)).
\<close>

datatype xfo_value =
    XJunk
  | XDeny
  | XAllowJunk
  | XSameOrigin string "string option"
  | XAllowFrom string "string option"

text \<open>The page origin as both normalisers read it: \<open>//host\<close> becomes \<open>https://host\<close>.\<close>

definition page_url :: "string \<Rightarrow> string" where
  "page_url o' = (if startswith o' ''//'' then ''https:'' @ o' else o')"

definition normalize_xfo :: "urlparse \<Rightarrow> string \<Rightarrow> string \<Rightarrow> error + xfo_value" where
  "normalize_xfo up v o' =
     ebind (up (page_url o')) (\<lambda>uo.
       if \<not> is_valid_origin uo then Inr XJunk
       else
         let v = lower v
         in if v = ''sameorigin'' then Inr (XSameOrigin (scheme uo) (hostname uo))
            else if v = ''deny'' then Inr XDeny
            else if startswith v ''allow-from '' then
              (let tokens = split_chr CHR '' '' v
               in ebind (item tokens 1) (\<lambda>t1.
                  ebind (up t1) (\<lambda>ue.
                    if length tokens = 2 \<and> tokens ! 0 = ''allow-from'' \<and> is_valid_origin ue
                    then Inr (XAllowFrom (scheme ue) (hostname ue))
                    else Inr XAllowJunk)))
            else Inr XJunk)"

subsection \<open>Parsing and normalising the modern header\<close>

definition parse_csp :: "string \<Rightarrow> string list option" where
  "parse_csp s = (if s = ''WARN_NO_HEADER'' then None else Some (split_ws (strip s)))"

text \<open>
  A policy expression is the string \<open>'*'\<close>, the string \<open>'none'\<close>, or a pair
  (scheme, host) whose host is \<open>None\<close> when \<open>urlparse\<close> found no host.
\<close>

datatype exp = Str string | Tup string "string option"

abbreviation Wildcard :: exp where
  "Wildcard \<equiv> Str ''*''"

abbreviation NoneExp :: exp where
  "NoneExp \<equiv> Str ''none''"

text \<open>
  What a translator returns: a list of expressions, or the string "JUNK" that
  \<open>normalize_csp\<close> returns for an invalid page origin.
\<close>

datatype sem = SStr string | SList "exp list"

definition quoted :: "string \<Rightarrow> string" where
  "quoted s = CHR 0x27 # s @ [CHR 0x27]"

text \<open>One round of the loop of \<open>normalize_csp\<close>: the expression appended for token \<open>e\<close>.\<close>

definition csp_exp :: "urlparse \<Rightarrow> parse_result \<Rightarrow> string \<Rightarrow> error + exp" where
  "csp_exp up uo e =
     (let e = lower e
      in if e = ''*'' then Inr (Str ''*'')
         else if e = quoted ''none'' then Inr (Str ''none'')
         else if e = quoted ''self'' then Inr (Tup (scheme uo) (hostname uo))
         else if e = ''http:'' then Inr (Tup ''http'' (Some ''*''))
         else if e = ''https:'' then Inr (Tup ''https'' (Some ''*''))
         else ebind (up e) (\<lambda>ue.
                if scheme ue = [] then Inr (Tup (scheme uo) (Some e))
                else Inr (Tup (scheme ue) (hostname ue))))"

fun csp_exps :: "urlparse \<Rightarrow> parse_result \<Rightarrow> string list \<Rightarrow> error + exp list" where
  "csp_exps up uo [] = Inr []"
| "csp_exps up uo (e # es) =
     ebind (csp_exp up uo e) (\<lambda>x.
     ebind (csp_exps up uo es) (\<lambda>xs. Inr (x # xs)))"

definition normalize_csp :: "urlparse \<Rightarrow> string list \<Rightarrow> string \<Rightarrow> error + sem" where
  "normalize_csp up v o' =
     ebind (up (page_url o')) (\<lambda>uo.
       if \<not> is_valid_origin uo then Inr (SStr ''JUNK'')
       else ebind (csp_exps up uo v) (\<lambda>nv. Inr (SList nv)))"

subsection \<open>The order on hosts, expressions and values, and the meet\<close>

definition leq_host :: "string option \<Rightarrow> string option \<Rightarrow> error + bool" where
  "leq_host h1 h2 =
     (if h1 = h2 then Inr True
      else if h2 = Some ''*'' then Inr True
      else if h1 = Some ''*'' then Inr False
      else case h1 of
             None \<Rightarrow> Inl AttributeError
           | Some s1 \<Rightarrow>
               (case h2 of
                  None \<Rightarrow> Inl AttributeError
                | Some s2 \<Rightarrow>
                    (let tokens1 = split_chr CHR ''.'' s1;
                         tokens2 = split_chr CHR ''.'' s2
                     in ebind (item tokens1 0) (\<lambda>t1.
                          if t1 = ''*'' then
                            ebind (item tokens2 0) (\<lambda>t2.
                              Inr (t2 = ''*'' \<and> endswith s1 (''.'' @ join ''.'' (drop 1 tokens2))))
                          else
                            ebind (item tokens2 0) (\<lambda>t2.
                              if t2 = ''*''
                              then Inr (endswith s1 (''.'' @ join ''.'' (drop 1 tokens2)))
                              else Inr False)))))"

text \<open>
  \<open>e[0]\<close> and \<open>e[1]\<close>. On a pair they are the scheme and the host; on a string they
  are its first and second character, when it has them.
\<close>

fun item0 :: "exp \<Rightarrow> error + string" where
  "item0 (Str s) = (if s = [] then Inl IndexError else Inr [s ! 0])"
| "item0 (Tup sc h) = Inr sc"

fun item1 :: "exp \<Rightarrow> error + string option" where
  "item1 (Str s) = (if length s < 2 then Inl IndexError else Inr (Some [s ! 1]))"
| "item1 (Tup sc h) = Inr h"

definition leq_exp :: "exp \<Rightarrow> exp \<Rightarrow> error + bool" where
  "leq_exp e1 e2 =
     (if e1 = e2 then Inr True
      else if e2 = Str ''*'' then Inr True
      else if e1 = Str ''*'' then Inr False
      else if e2 = Str ''none'' then Inr False
      else if e1 = Str ''none'' then Inr True
      else ebind (item0 e1) (\<lambda>a.
           ebind (item0 e2) (\<lambda>b.
             if a \<noteq> b then Inr False
             else ebind (item1 e1) (\<lambda>h1.
                  ebind (item1 e2) (\<lambda>h2. leq_host h1 h2)))))"

text \<open>
  Iterating over a value: a list yields its expressions, a string yields its characters
  as strings of length one.
\<close>

fun elems :: "sem \<Rightarrow> exp list" where
  "elems (SStr s) = map (\<lambda>c. Str [c]) s"
| "elems (SList es) = es"

text \<open>The inner loop of \<open>leq_val\<close> has no \<open>break\<close>: every \<open>e2\<close> is compared.\<close>

fun leq_val_inner :: "exp \<Rightarrow> exp list \<Rightarrow> bool \<Rightarrow> error + bool" where
  "leq_val_inner e1 [] found = Inr found"
| "leq_val_inner e1 (e2 # es) found =
     ebind (leq_exp e1 e2) (\<lambda>b. leq_val_inner e1 es (if b then True else found))"

fun leq_val_outer :: "exp list \<Rightarrow> exp list \<Rightarrow> error + bool" where
  "leq_val_outer [] v2 = Inr True"
| "leq_val_outer (e1 # es) v2 =
     ebind (leq_val_inner e1 v2 False) (\<lambda>found.
       if \<not> found then Inr False else leq_val_outer es v2)"

definition leq_val :: "sem \<Rightarrow> sem \<Rightarrow> error + bool" where
  "leq_val v1 v2 = leq_val_outer (elems v1) (elems v2)"

definition meet :: "exp \<Rightarrow> exp \<Rightarrow> error + exp" where
  "meet e1 e2 =
     ebind (leq_exp e1 e2) (\<lambda>a.
       if a then Inr e1
       else ebind (leq_exp e2 e1) (\<lambda>b.
              if b then Inr e2 else Inr (Str ''none'')))"

subsection \<open>The browser translators\<close>

text \<open>The policies of one browser: \<open>p['xfo']\<close> and \<open>p['csp']\<close>, lists of raw header values.\<close>

record policy =
  xfo :: "string list"
  csp :: "string list"

text \<open>
  The two normalisation loops every translator starts with: a raw value that is the
  sentinel is skipped, every other one is normalised and appended.
\<close>

fun collect_xfo :: "urlparse \<Rightarrow> string list \<Rightarrow> string \<Rightarrow> error + xfo_value list" where
  "collect_xfo up [] orig = Inr []"
| "collect_xfo up (x # xs) orig =
     (case parse_xfo x of
        None \<Rightarrow> collect_xfo up xs orig
      | Some px \<Rightarrow>
          ebind (normalize_xfo up px orig) (\<lambda>n.
          ebind (collect_xfo up xs orig) (\<lambda>ns. Inr (n # ns))))"

fun collect_csp :: "urlparse \<Rightarrow> string list \<Rightarrow> string \<Rightarrow> error + sem list" where
  "collect_csp up [] orig = Inr []"
| "collect_csp up (c # cs) orig =
     (case parse_csp c of
        None \<Rightarrow> collect_csp up cs orig
      | Some pc \<Rightarrow>
          ebind (normalize_csp up pc orig) (\<lambda>n.
          ebind (collect_csp up cs orig) (\<lambda>ns. Inr (n # ns))))"

text \<open>
  The expression a legacy value stands for. Firefox, Edge and Internet Explorer use the
  first chain (JUNK is \<open>'*'\<close>, DENY and ALLOW-JUNK are \<open>'none'\<close>, otherwise \<open>x[1]\<close>);
  the Chrome family and Opera Mini use the second (JUNK, ALLOW-JUNK and ALLOW-FROM are
  \<open>'*'\<close>, DENY is \<open>'none'\<close>, otherwise \<open>x[1]\<close>).
\<close>

fun exp_firefox :: "xfo_value \<Rightarrow> exp" where
  "exp_firefox XJunk = Str ''*''"
| "exp_firefox XDeny = Str ''none''"
| "exp_firefox XAllowJunk = Str ''none''"
| "exp_firefox (XSameOrigin s h) = Tup s h"
| "exp_firefox (XAllowFrom s h) = Tup s h"

fun exp_chrome :: "xfo_value \<Rightarrow> exp" where
  "exp_chrome XJunk = Str ''*''"
| "exp_chrome XAllowJunk = Str ''*''"
| "exp_chrome (XAllowFrom s h) = Str ''*''"
| "exp_chrome XDeny = Str ''none''"
| "exp_chrome (XSameOrigin s h) = Tup s h"

text \<open>The loop \<open>for x in pol["xfo"]: res = meet(res, ...)\<close>.\<close>

fun meet_all :: "(xfo_value \<Rightarrow> exp) \<Rightarrow> exp \<Rightarrow> xfo_value list \<Rightarrow> error + exp" where
  "meet_all f res [] = Inr res"
| "meet_all f res (x # xs) = ebind (meet res (f x)) (\<lambda>res'. meet_all f res' xs)"

definition t_firefox :: "urlparse \<Rightarrow> policy \<Rightarrow> string \<Rightarrow> error + sem" where
  "t_firefox up p orig =
     ebind (collect_xfo up (concat (map (split_chr CHR '','') (xfo p))) orig) (\<lambda>pol_xfo.
     ebind (collect_csp up (csp p) orig) (\<lambda>pol_csp.
       if length pol_csp > 0 then Inr (pol_csp ! 0)
       else if length pol_xfo > 0 then
         ebind (meet_all exp_firefox (Str ''*'') pol_xfo) (\<lambda>res. Inr (SList [res]))
       else Inr (SList [Str ''*''])))"

definition t_chrome :: "urlparse \<Rightarrow> policy \<Rightarrow> string \<Rightarrow> error + sem" where
  "t_chrome up p orig =
     ebind (collect_xfo up (concat (map (split_chr CHR '','') (xfo p))) orig) (\<lambda>pol_xfo.
     ebind (collect_csp up (csp p) orig) (\<lambda>pol_csp.
       if length pol_csp > 0 then Inr (pol_csp ! 0)
       else if length pol_xfo > 0 then
         ebind (meet_all exp_chrome (Str ''*'') pol_xfo) (\<lambda>res. Inr (SList [res]))
       else Inr (SList [Str ''*''])))"

definition t_opera_mini :: "urlparse \<Rightarrow> policy \<Rightarrow> string \<Rightarrow> error + sem" where
  "t_opera_mini up p orig =
     ebind (collect_xfo up (xfo p) orig) (\<lambda>pol_xfo.
       if length pol_xfo > 0 then Inr (SList [exp_chrome (pol_xfo ! 0)])
       else Inr (SList [Str ''*'']))"

definition t_edge :: "urlparse \<Rightarrow> policy \<Rightarrow> string \<Rightarrow> error + sem" where
  "t_edge up p orig =
     ebind (collect_csp up (csp p) orig) (\<lambda>pol_csp.
     ebind (collect_xfo up (xfo p) orig) (\<lambda>pol_xfo.
       if length pol_csp > 0 then Inr (pol_csp ! 0)
       else if length pol_xfo > 0 then Inr (SList [exp_firefox (pol_xfo ! 0)])
       else Inr (SList [Str ''*''])))"

definition t_explorer :: "urlparse \<Rightarrow> policy \<Rightarrow> string \<Rightarrow> error + sem" where
  "t_explorer up p orig =
     ebind (collect_xfo up (xfo p) orig) (\<lambda>pol_xfo.
       if length pol_xfo > 0 then Inr (SList [exp_firefox (pol_xfo ! 0)])
       else Inr (SList [Str ''*'']))"

subsection \<open>Dispatch on the User-Agent string\<close>

definition FIREFOX :: string where
  "FIREFOX = ''Mozilla/5.0 (Windows NT 10.0; Win64; x64; rv:67.0) Gecko/20100101 Firefox/67.0''"

definition CHROME :: string where
  "CHROME = ''Mozilla/5.0 (Windows NT 10.0; Win64; x64) AppleWebKit/537.36 (KHTML, like Gecko) Chrome/77.0.3865.75 Safari/537.36''"

definition SAFARI :: string where
  "SAFARI = ''Mozilla/5.0 (Macintosh; Intel Mac OS X 10_14_4) AppleWebKit/605.1.15 (KHTML, like Gecko) Version/12.1 Safari/605.1.15''"

definition SAFARI_IOS :: string where
  "SAFARI_IOS = ''Mozilla/5.0 (iPhone; CPU iPhone OS 12_4 like Mac OS X) AppleWebKit/605.1.15 (KHTML, like Gecko) Version/12.1.2 Mobile/15E148 Safari/604.1''"

definition SAMSUNG :: string where
  "SAMSUNG = ''Mozilla/5.0 (Linux; Android 9; SAMSUNG SM-G960U Build/PPR1.180610.011) AppleWebKit/537.36 (KHTML, like Gecko) SamsungBrowser/9.4 Chrome/67.0.3396.87 Mobile Safari/537.36''"

definition UC_BROWSER :: string where
  "UC_BROWSER = ''Mozilla/5.0 (Linux; U; Android 7.0; es-LA; Moto C Build/NRD90M.068) AppleWebKit/537.36 (KHTML, like Gecko) Version/4.0 Chrome/57.0.2987.108 UCBrowser/12.9.5.1146 Mobile Safari/537.36''"

definition IE :: string where
  "IE = ''Mozilla/5.0 (Windows NT 6.1; WOW64; Trident/7.0; rv:11.0) like Gecko''"

definition OPERA_MINI :: string where
  "OPERA_MINI = ''Opera/9.80 (Android; Opera Mini/12.0.1987/37.7327; U; pl) Presto/2.12.423 Version/12.16''"

definition EDGE :: string where
  "EDGE = ''Mozilla/5.0 (Windows NT 10.0; Win64; x64) AppleWebKit/537.36 (KHTML, like Gecko) Chrome/64.0.3282.140 Safari/537.36 Edge/18.17763''"

text \<open>An unsupported browser ends the program with \<open>sys.exit()\<close>.\<close>

definition translate :: "urlparse \<Rightarrow> policy \<Rightarrow> string \<Rightarrow> string \<Rightarrow> error + sem" where
  "translate up p b orig =
     (if b = FIREFOX then t_firefox up p orig
      else if b \<in> set [CHROME, SAFARI, SAFARI_IOS, SAMSUNG, UC_BROWSER] then t_chrome up p orig
      else if b = IE then t_explorer up p orig
      else if b = OPERA_MINI then t_opera_mini up p orig
      else if b = EDGE then t_edge up p orig
      else Inl SystemExit)"

subsection \<open>The inconsistency analyzer\<close>

definition just_xfo :: "string \<Rightarrow> bool" where
  "just_xfo b = (b \<in> set [IE, OPERA_MINI])"

text \<open>
  The dictionary from User-Agent strings to policies is an association list in insertion
  order (a Python dictionary has each key once). \<open>p[b]\<close> raises KeyError on a missing key.
\<close>

type_synonym policies = "(string \<times> policy) list"

definition getitem :: "policies \<Rightarrow> string \<Rightarrow> error + policy" where
  "getitem p b = (case map_of p b of None \<Rightarrow> Inl KeyError | Some x \<Rightarrow> Inr x)"

text \<open>
  The loop \<open>for b in b_xfo + b_csp\<close>: each browser is translated in turn, and the value
  is kept with its browser so that it can be put under its key afterwards.
\<close>

fun translate_all :: "urlparse \<Rightarrow> policies \<Rightarrow> string list \<Rightarrow> string \<Rightarrow> error + (string \<times> sem) list" where
  "translate_all up p [] orig = Inr []"
| "translate_all up p (b # bs) orig =
     ebind (getitem p b) (\<lambda>pb.
     ebind (translate up pb b orig) (\<lambda>v.
     ebind (translate_all up p bs orig) (\<lambda>vs. Inr ((b, v) # vs))))"

text \<open>Removing duplicates: the first occurrence of each value stays, in order.\<close>

fun no_dup_from :: "'a list \<Rightarrow> 'a list \<Rightarrow> 'a list" where
  "no_dup_from acc [] = acc"
| "no_dup_from acc (x # xs) =
     (if x \<notin> set acc then no_dup_from (acc @ [x]) xs else no_dup_from acc xs)"

definition no_dup :: "'a list \<Rightarrow> 'a list" where
  "no_dup xs = no_dup_from [] xs"

record semantics =
  sem_xfo :: "sem list"
  sem_csp :: "sem list"

definition find_inconsistencies :: "urlparse \<Rightarrow> policies \<Rightarrow> string \<Rightarrow> error + semantics" where
  "find_inconsistencies up p orig =
     (let b_xfo = filter just_xfo (map fst p);
          b_csp = filter (\<lambda>b. \<not> just_xfo b) (map fst p)
      in ebind (translate_all up p (b_xfo @ b_csp) orig) (\<lambda>vs.
           Inr \<lparr> sem_xfo = no_dup (map snd (filter (\<lambda>bv. just_xfo (fst bv)) vs)),
                 sem_csp = no_dup (map snd (filter (\<lambda>bv. \<not> just_xfo (fst bv)) vs)) \<rparr>))"

text \<open>\<open>not leq_val(v1, v2) or not leq_val(v2, v1)\<close>: the second call is made only when the first returned True.\<close>

definition is_inconsistent :: "semantics \<Rightarrow> error + bool" where
  "is_inconsistent s =
     (if length (sem_xfo s) > 1 \<or> length (sem_csp s) > 1 then Inr True
      else if length (sem_xfo s) = 1 \<and> length (sem_csp s) = 1 then
        (let v1 = sem_xfo s ! 0; v2 = sem_csp s ! 0
         in ebind (leq_val v1 v2) (\<lambda>a.
              if \<not> a then Inr True
              else ebind (leq_val v2 v1) (\<lambda>b. Inr (\<not> b))))
      else Inr False)"

subsection \<open>Predicates and sample data of the statements\<close>

text \<open>
  The shapes of expression that \<open>normalize_csp\<close> and the translators build: the two
  strings \<open>'*'\<close> and \<open>'none'\<close>, and pairs. \<open>has_host\<close> holds of a pair whose host is
  a string, and of the two strings.
\<close>

fun policy_exp :: "exp \<Rightarrow> bool" where
  "policy_exp (Str s) = (s = ''*'' \<or> s = ''none'')"
| "policy_exp (Tup sc h) = True"

fun has_host :: "exp \<Rightarrow> bool" where
  "has_host (Str s) = True"
| "has_host (Tup sc h) = (h \<noteq> None)"

text \<open>
  The first raw header value of a list that is not the sentinel: the first one the
  loops of a translator parse and normalise.
\<close>

fun first_present :: "string list \<Rightarrow> string option" where
  "first_present [] = None"
| "first_present (h # hs) = (if h = ''WARN_NO_HEADER'' then first_present hs else Some h)"

text \<open>
  What CPython's \<open>urlparse\<close> answers on the URLs of the examples below: the scheme and
  the host of three URLs, and ValueError ("Invalid IPv6 URL") on a URL whose host opens
  a bracket that is never closed. On every other string the table answers as
  \<open>urlparse\<close> does on a string with neither scheme nor host; the examples pass it no
  other string that has one.
\<close>

definition urlparse_sample :: urlparse where
  "urlparse_sample s =
     (if s = ''https://example.com''
        then Inr \<lparr>scheme = ''https'', hostname = Some ''example.com''\<rparr>
      else if s = ''https://google.com''
        then Inr \<lparr>scheme = ''https'', hostname = Some ''google.com''\<rparr>
      else if s = ''ftp://example.com''
        then Inr \<lparr>scheme = ''ftp'', hostname = Some ''example.com''\<rparr>
      else if s = ''http://[''
        then Inl ValueError
      else Inr \<lparr>scheme = [], hostname = None\<rparr>)"

section \<open>Properties\<close>

subsection \<open>Exceptions and strings\<close>

lemma ebind_simps [simp]:
  "ebind (Inl e) f = Inl e" "ebind (Inr x) f = f x"
  by (simp_all add: ebind_def)

lemma ebind_eq_Inr: "ebind m f = Inr y \<longleftrightarrow> (\<exists>x. m = Inr x \<and> f x = Inr y)"
  by (cases m) simp_all

lemma ebind_eq_Inl: "ebind m f = Inl e \<longleftrightarrow> (m = Inl e \<or> (\<exists>x. m = Inr x \<and> f x = Inl e))"
  by (cases m) simp_all

lemma split_chr_nonempty: "split_chr c s \<noteq> []"
  by (induction s) (simp_all add: Let_def)


lemma split_chr_no_sep: "c \<notin> set s \<Longrightarrow> split_chr c s = [s]"
  by (induction s) (auto simp: Let_def)

lemma split_chr_append: "c \<notin> set a \<Longrightarrow> split_chr c (a @ c # r) = a # split_chr c r"
  by (induction a) (auto simp: Let_def)

lemma split_chr_hd: "hd (split_chr c s) = takeWhile (\<lambda>x. x \<noteq> c) s"
  by (induction s) (simp_all add: Let_def)


lemma item_split_chr_0: "item (split_chr c s) 0 = Inr (hd (split_chr c s))"
  using split_chr_nonempty [of c s] by (simp add: item_def hd_conv_nth)

text \<open>Joining the tokens of a split with the separator gives the string back.\<close>

lemma join_split_chr: "join [c] (split_chr c s) = s"
proof (induction s)
  case Nil
  show ?case by simp
next
  case (Cons x xs)
  obtain t ts where r: "split_chr c xs = t # ts"
    using split_chr_nonempty [of c xs] by (cases "split_chr c xs") auto
  show ?case
  proof (cases "x = c")
    case True
    then show ?thesis using Cons.IH r by simp
  next
    case False
    then show ?thesis using Cons.IH r by (cases ts) simp_all
  qed
qed

lemma split_chr_star:
  assumes "hd (split_chr c s) = t" and "s \<noteq> t"
  shows "s = t @ c # join [c] (drop 1 (split_chr c s))"
proof -
  obtain t' ts where r: "split_chr c s = t' # ts"
    using split_chr_nonempty [of c s] by (cases "split_chr c s") auto
  with assms(1) have t': "t' = t" by simp
  have j: "join [c] (t # ts) = s" using join_split_chr [of c s] r t' by simp
  show ?thesis
  proof (cases ts)
    case Nil
    with j assms(2) show ?thesis by simp
  next
    case (Cons u us)
    with j r show ?thesis by simp
  qed
qed

lemma endswith_cross:
  assumes "a \<noteq> b"
    and "endswith (a # b # r1) (b # r2)"
    and "endswith (a # b # r2) (b # r1)"
  shows "r1 = r2"
proof -
  from assms(2) have l1: "length r2 \<le> Suc (length r1)" by (simp add: endswith_def)
  from assms(3) have l2: "length r1 \<le> Suc (length r2)" by (simp add: endswith_def)
  consider "length r1 = length r2" | "length r2 = Suc (length r1)" | "length r1 = Suc (length r2)"
    using l1 l2 by linarith
  then show ?thesis
  proof cases
    case 1
    with assms(2) show ?thesis by (simp add: endswith_def)
  next
    case 2
    with assms(2) assms(1) show ?thesis by (simp add: endswith_def)
  next
    case 3
    with assms(3) assms(1) show ?thesis by (simp add: endswith_def)
  qed
qed

lemma startswith_append: "startswith s p \<Longrightarrow> s = p @ drop (length p) s"
  unfolding startswith_def by (metis append_take_drop_id)

text \<open>A value has no whitespace-separated token exactly when it is all whitespace.\<close>

lemma split_ws_from_Nil:
  "split_ws_from cur s = [] \<longleftrightarrow> cur = [] \<and> (\<forall>c \<in> set s. isspace c)"
  by (induction s arbitrary: cur) auto

lemma strip_all_space: "(\<forall>c \<in> set (strip s). isspace c) \<longleftrightarrow> (\<forall>c \<in> set s. isspace c)"
proof
  assume "\<forall>c \<in> set s. isspace c"
  then have d: "dropWhile isspace s = []" by simp
  show "\<forall>c \<in> set (strip s). isspace c" unfolding strip_def d by simp
next
  assume a: "\<forall>c \<in> set (strip s). isspace c"
  define t where "t = dropWhile isspace s"
  define u where "u = dropWhile isspace (rev t)"
  have su: "set (strip s) = set u" by (simp add: strip_def t_def u_def)
  have "u = []"
  proof (rule ccontr)
    assume ne: "u \<noteq> []"
    then have "\<not> isspace (hd u)" unfolding u_def by (rule hd_dropWhile)
    moreover from ne have "hd u \<in> set u" by simp
    ultimately show False using a su by auto
  qed
  then have sp: "\<forall>c \<in> set t. isspace c" by (simp add: u_def dropWhile_eq_Nil_conv)
  have "t = []"
  proof (rule ccontr)
    assume ne: "t \<noteq> []"
    then have "\<not> isspace (hd t)" unfolding t_def by (rule hd_dropWhile)
    moreover from ne have "hd t \<in> set t" by simp
    ultimately show False using sp by auto
  qed
  then show "\<forall>c \<in> set s. isspace c" by (simp add: t_def dropWhile_eq_Nil_conv)
qed

lemma tokens_Nil: "split_ws (strip c) = [] \<longleftrightarrow> (\<forall>ch \<in> set c. isspace ch)"
  by (simp add: split_ws_def split_ws_from_Nil strip_all_space)

subsection \<open>The tokens of an allow-from value\<close>

lemma allow_from_split:
  assumes "startswith v ''allow-from ''"
  shows "split_chr CHR '' '' v = ''allow-from'' # split_chr CHR '' '' (drop 11 v)"
proof -
  have len: "length ''allow-from '' = 11" by simp
  have eq: "v = ''allow-from '' @ drop 11 v"
    using startswith_append [OF assms] unfolding len .
  have "split_chr CHR '' '' v = split_chr CHR '' '' (''allow-from '' @ drop 11 v)"
    by (subst eq) (rule refl)
  also have "\<dots> = split_chr CHR '' '' (''allow-from'' @ CHR '' '' # drop 11 v)"
    by simp
  also have "\<dots> = ''allow-from'' # split_chr CHR '' '' (drop 11 v)"
    by (rule split_chr_append) simp
  finally show ?thesis .
qed

lemma allow_from_item1:
  assumes "startswith v ''allow-from ''"
  shows "item (split_chr CHR '' '' v) 1 = Inr (takeWhile (\<lambda>x. x \<noteq> CHR '' '') (drop 11 v))"
  using split_chr_nonempty [of "CHR '' ''" "drop 11 v"]
  by (simp add: allow_from_split [OF assms] item_def split_chr_hd [symmetric] hd_conv_nth)

lemmas allow_from_item_Suc = allow_from_item1 [unfolded One_nat_def]


subsection \<open>The origin validator\<close>

text \<open>
  C7. \<open>is_valid_origin\<close> returns a boolean on every parsed URL, also on one whose host
  is \<open>None\<close>: it is True exactly when the scheme is http or https, the host is a
  non-empty string and the host does not start with \<open>*.\<close>; when the body of its
  \<open>try\<close> raises, it returns False.
\<close>

theorem is_valid_origin_spec:
  "(is_valid_origin uo \<longleftrightarrow>
      (scheme uo = ''http'' \<or> scheme uo = ''https'') \<and>
      (\<exists>h. hostname uo = Some h \<and> h \<noteq> [] \<and> \<not> startswith h ''*.'')) \<and>
   (is_valid_origin_try uo = Inl e \<longrightarrow> is_valid_origin uo = False)"
  by (cases "hostname uo") (auto simp: is_valid_origin_def is_valid_origin_try_def Let_def)

theorem is_valid_origin_spec_witness:
  "is_valid_origin_try \<lparr>scheme = ''http'', hostname = None\<rparr> = Inl AttributeError \<and>
   is_valid_origin \<lparr>scheme = ''http'', hostname = None\<rparr> = False"
  using is_valid_origin_spec [of "\<lparr>scheme = ''http'', hostname = None\<rparr>" AttributeError]
  by (simp add: is_valid_origin_try_def)

subsection \<open>The legacy normaliser\<close>

lemma normalize_xfo_raise: "normalize_xfo up v orig = Inl e \<Longrightarrow> \<exists>s. up s = Inl e"
  unfolding normalize_xfo_def Let_def
  by (auto simp: ebind_eq_Inl allow_from_item_Suc split: if_splits)







subsection \<open>The order and the meet\<close>

lemma leq_host_Some:
  "leq_host (Some s1) (Some s2) =
     Inr (s1 = s2 \<or> s2 = ''*'' \<or>
          (s1 \<noteq> ''*'' \<and> hd (split_chr CHR ''.'' s2) = ''*'' \<and>
           endswith s1 (''.'' @ join ''.'' (drop 1 (split_chr CHR ''.'' s2)))))"
  by (auto simp: leq_host_def item_split_chr_0 Let_def)

lemma leq_host_None:
  "leq_host None h2 = (if h2 = None \<or> h2 = Some ''*'' then Inr True else Inl AttributeError)"
  "leq_host h1 None = (if h1 = None then Inr True else if h1 = Some ''*'' then Inr False else Inl AttributeError)"
  by (auto simp: leq_host_def split: option.splits)

lemma leq_host_antisym:
  assumes "leq_host h1 h2 = Inr True" and "leq_host h2 h1 = Inr True"
  shows "h1 = h2"
proof (cases h1)
  case None
  with assms show ?thesis by (auto simp: leq_host_None split: if_splits)
next
  case h1: (Some s1)
  show ?thesis
  proof (cases h2)
    case None
    with assms h1 show ?thesis by (auto simp: leq_host_None split: if_splits)
  next
    case h2: (Some s2)
    show ?thesis
    proof (rule ccontr)
      assume ne: "h1 \<noteq> h2"
      with h1 h2 have ne': "s1 \<noteq> s2" by simp
      from assms(1) ne' h1 h2 have a: "s2 = ''*'' \<or> (s1 \<noteq> ''*'' \<and> hd (split_chr CHR ''.'' s2) = ''*'' \<and>
           endswith s1 (''.'' @ join ''.'' (drop 1 (split_chr CHR ''.'' s2))))"
        by (simp add: leq_host_Some)
      from assms(2) ne' h1 h2 have b: "s1 = ''*'' \<or> (s2 \<noteq> ''*'' \<and> hd (split_chr CHR ''.'' s1) = ''*'' \<and>
           endswith s2 (''.'' @ join ''.'' (drop 1 (split_chr CHR ''.'' s1))))"
        by (auto simp: leq_host_Some)
      from a b ne' have c: "s1 \<noteq> ''*''" "s2 \<noteq> ''*''"
        "hd (split_chr CHR ''.'' s2) = ''*''" "hd (split_chr CHR ''.'' s1) = ''*''"
        "endswith s1 (''.'' @ join ''.'' (drop 1 (split_chr CHR ''.'' s2)))"
        "endswith s2 (''.'' @ join ''.'' (drop 1 (split_chr CHR ''.'' s1)))"
        by auto
      define r1 where "r1 = join ''.'' (drop 1 (split_chr CHR ''.'' s1))"
      define r2 where "r2 = join ''.'' (drop 1 (split_chr CHR ''.'' s2))"
      have e1: "s1 = CHR ''*'' # CHR ''.'' # r1"
        using split_chr_star [OF c(4)] c(1) by (simp add: r1_def)
      have e2: "s2 = CHR ''*'' # CHR ''.'' # r2"
        using split_chr_star [OF c(3)] c(2) by (simp add: r2_def)
      have "endswith (CHR ''*'' # CHR ''.'' # r1) (CHR ''.'' # r2)"
        using c(5) e1 by (simp add: r2_def)
      moreover have "endswith (CHR ''*'' # CHR ''.'' # r2) (CHR ''.'' # r1)"
        using c(6) e2 by (simp add: r1_def)
      ultimately have "r1 = r2" by (intro endswith_cross [of "CHR ''*''" "CHR ''.''"]) simp_all
      with e1 e2 ne' show False by simp
    qed
  qed
qed

lemma leq_host_error_sym: "leq_host h1 h2 = Inl e \<Longrightarrow> leq_host h2 h1 = Inl e"
  by (cases h1; cases h2) (auto simp: leq_host_None leq_host_Some split: if_splits)

lemma leq_exp_Tup:
  "leq_exp (Tup s1 h1) (Tup s2 h2) =
     (if s1 = s2 then leq_host h1 h2 else Inr False)"
  by (auto simp: leq_exp_def leq_host_def)

lemma leq_exp_policy_cases:
  assumes "policy_exp e1" "policy_exp e2"
  shows "leq_exp e1 e2 =
     (if e1 = e2 \<or> e2 = Str ''*'' then Inr True
      else if e1 = Str ''*'' \<or> e2 = Str ''none'' then Inr False
      else if e1 = Str ''none'' then Inr True
      else case (e1, e2) of (Tup s1 h1, Tup s2 h2) \<Rightarrow> if s1 = s2 then leq_host h1 h2 else Inr False
           | _ \<Rightarrow> Inr False)"
  using assms by (cases e1; cases e2) (auto simp: leq_exp_def)

lemma leq_exp_antisym:
  assumes "policy_exp e1" "policy_exp e2"
    and "leq_exp e1 e2 = Inr True" "leq_exp e2 e1 = Inr True"
  shows "e1 = e2"
  using assms
  by (cases e1; cases e2) (auto simp: leq_exp_def leq_exp_Tup split: if_splits dest: leq_host_antisym)

lemma leq_exp_error_sym:
  assumes "policy_exp e1" "policy_exp e2" "leq_exp e1 e2 = Inl e"
  shows "leq_exp e2 e1 = Inl e"
  using assms
  by (cases e1; cases e2) (auto simp: leq_exp_def leq_exp_Tup split: if_splits dest: leq_host_error_sym)

lemma leq_exp_returns:
  assumes "policy_exp e1" "policy_exp e2" "has_host e1" "has_host e2"
  shows "\<exists>b. leq_exp e1 e2 = Inr b"
  using assms
  by (cases e1; cases e2) (auto simp: leq_exp_def leq_exp_Tup leq_host_Some split: if_splits)

lemma meet_comm_aux:
  assumes "policy_exp e1" "policy_exp e2"
  shows "meet e1 e2 = meet e2 e1"
proof (cases "leq_exp e1 e2")
  case (Inl e)
  with leq_exp_error_sym [OF assms this] show ?thesis by (simp add: meet_def)
next
  case a: (Inr a)
  show ?thesis
  proof (cases "leq_exp e2 e1")
    case (Inl e)
    with leq_exp_error_sym [OF assms(2) assms(1) this] a show ?thesis by simp
  next
    case b: (Inr b)
    show ?thesis
    proof (cases "a \<and> b")
      case True
      with a b leq_exp_antisym [OF assms] have "e1 = e2" by simp
      then show ?thesis by simp
    next
      case False
      with a b show ?thesis by (auto simp: meet_def)
    qed
  qed
qed






text \<open>
  C8. \<open>meet\<close> is commutative on the expressions normalisation builds (\<open>'*'\<close>,
  \<open>'none'\<close> and pairs): both calls return the same expression, or raise the same
  exception when a pair has no host; with hosts present both return. \<open>leq_exp\<close> is
  antisymmetric on these expressions.
\<close>

theorem meet_commutative:
  assumes "policy_exp e1" and "policy_exp e2"
  shows "meet e1 e2 = meet e2 e1 \<and>
         (has_host e1 \<and> has_host e2 \<longrightarrow> (\<exists>e. meet e1 e2 = Inr e)) \<and>
         (leq_exp e1 e2 = Inr True \<and> leq_exp e2 e1 = Inr True \<longrightarrow> e1 = e2)"
proof -
  have "\<exists>e. meet e1 e2 = Inr e" if "has_host e1" "has_host e2"
  proof -
    from leq_exp_returns [OF assms that] obtain a where a: "leq_exp e1 e2 = Inr a" by blast
    from leq_exp_returns [OF assms(2) assms(1) that(2) that(1)]
    obtain b where b: "leq_exp e2 e1 = Inr b" by blast
    show ?thesis by (simp add: meet_def a b)
  qed
  with meet_comm_aux [OF assms] leq_exp_antisym [OF assms] show ?thesis by blast
qed

theorem meet_commutative_witness:
  "policy_exp (Tup ''https'' (Some ''*.example.com'')) \<and>
   policy_exp (Tup ''https'' (Some ''a.example.com'')) \<and>
   has_host (Tup ''https'' (Some ''*.example.com'')) \<and>
   has_host (Tup ''https'' (Some ''a.example.com'')) \<and>
   meet (Tup ''https'' (Some ''*.example.com'')) (Tup ''https'' (Some ''a.example.com''))
     = Inr (Tup ''https'' (Some ''a.example.com'')) \<and>
   meet (Tup ''https'' (Some ''a.example.com'')) (Tup ''https'' (Some ''*.example.com''))
     = Inr (Tup ''https'' (Some ''a.example.com'')) \<and>
   leq_exp (Tup ''https'' (Some ''*.example.com'')) (Tup ''https'' (Some ''*.example.com''))
     = Inr True"
  using meet_commutative [of "Tup ''https'' (Some ''*.example.com'')" "Tup ''https'' (Some ''a.example.com'')"]
    meet_commutative [of "Tup ''https'' (Some ''*.example.com'')" "Tup ''https'' (Some ''*.example.com'')"]
  by (simp add: meet_def leq_exp_Tup leq_host_Some endswith_def Let_def)

lemma meet_returns:
  assumes "policy_exp e1" "policy_exp e2" "has_host e1" "has_host e2"
  shows "\<exists>e. meet e1 e2 = Inr e \<and> policy_exp e \<and> has_host e"
proof -
  from leq_exp_returns [OF assms] obtain a where a: "leq_exp e1 e2 = Inr a" by blast
  from leq_exp_returns [OF assms(2) assms(1) assms(4) assms(3)]
  obtain b where b: "leq_exp e2 e1 = Inr b" by blast
  show ?thesis using assms by (simp add: meet_def a b)
qed

lemma meet_all_returns:
  assumes "policy_exp res" "has_host res"
    and "\<forall>x \<in> set xs. policy_exp (f x) \<and> has_host (f x)"
  shows "\<exists>e. meet_all f res xs = Inr e"
  using assms
proof (induction xs arbitrary: res)
  case Nil
  show ?case by simp
next
  case (Cons x xs)
  then obtain e where "meet res (f x) = Inr e" "policy_exp e" "has_host e"
    using meet_returns [of res "f x"] by auto
  with Cons show ?case by simp
qed

subsection \<open>The translators and the modern header\<close>

lemma first_present_None: "first_present hs = None \<longleftrightarrow> (\<forall>h \<in> set hs. h = ''WARN_NO_HEADER'')"
  by (induction hs) auto

lemma collect_csp_first:
  "collect_csp up cs orig = Inr ns \<Longrightarrow>
     (case first_present cs of
        None \<Rightarrow> ns = []
      | Some c \<Rightarrow> 0 < length ns \<and> normalize_csp up (split_ws (strip c)) orig = Inr (ns ! 0))"
  by (induction cs arbitrary: ns) (auto simp: parse_csp_def ebind_eq_Inr)

lemma collect_xfo_first:
  "collect_xfo up xs orig = Inr ns \<Longrightarrow>
     (case first_present xs of
        None \<Rightarrow> ns = []
      | Some x \<Rightarrow> 0 < length ns \<and> normalize_xfo up (strip x) orig = Inr (ns ! 0))"
  by (induction xs arbitrary: ns) (auto simp: parse_xfo_def ebind_eq_Inr)

lemma collect_csp_absent: "first_present cs = None \<Longrightarrow> collect_csp up cs orig = Inr []"
  by (induction cs) (auto simp: parse_csp_def split: if_splits)

lemma collect_xfo_absent: "first_present xs = None \<Longrightarrow> collect_xfo up xs orig = Inr []"
  by (induction xs) (auto simp: parse_xfo_def split: if_splits)

lemma split_sentinel: "split_chr CHR '','' ''WARN_NO_HEADER'' = [''WARN_NO_HEADER'']"
  by (rule split_chr_no_sep) simp

lemma first_present_split:
  "first_present xs = None \<Longrightarrow> first_present (concat (map (split_chr CHR '','') xs)) = None"
  by (induction xs) (auto simp: split_sentinel split: if_splits)

text \<open>The translators that read the modern header return its first normalised value.\<close>

lemma t_firefox_modern:
  assumes "first_present (csp p) = Some c" and "t_firefox up p orig = Inr v"
  shows "normalize_csp up (split_ws (strip c)) orig = Inr v"
  using assms unfolding t_firefox_def
  by (auto simp: ebind_eq_Inr dest!: collect_csp_first)

lemma t_chrome_modern:
  assumes "first_present (csp p) = Some c" and "t_chrome up p orig = Inr v"
  shows "normalize_csp up (split_ws (strip c)) orig = Inr v"
  using assms unfolding t_chrome_def
  by (auto simp: ebind_eq_Inr dest!: collect_csp_first)

lemma t_edge_modern:
  assumes "first_present (csp p) = Some c" and "t_edge up p orig = Inr v"
  shows "normalize_csp up (split_ws (strip c)) orig = Inr v"
  using assms unfolding t_edge_def
  by (auto simp: ebind_eq_Inr dest!: collect_csp_first)

lemma legacy_only_ignore_csp:
  "t_explorer up (p\<lparr>csp := cs\<rparr>) orig = t_explorer up p orig"
  "t_opera_mini up (p\<lparr>csp := cs\<rparr>) orig = t_opera_mini up p orig"
  by (simp_all add: t_explorer_def t_opera_mini_def)

text \<open>
  C1, as the code has it. Firefox, the Chrome family and Edge: when a modern header is
  present (a raw value that is not the sentinel) and the translator returns, its result
  is the normalised value of the first present modern header; it does not depend on the
  other modern headers nor on the legacy headers. Internet Explorer and Opera Mini never
  read the modern headers: replacing them leaves their result unchanged.
\<close>

theorem modern_header_first_wins:
  assumes "first_present (csp p) = Some c"
  shows "(t_firefox up p orig = Inr v \<longrightarrow> normalize_csp up (split_ws (strip c)) orig = Inr v) \<and>
         (t_chrome up p orig = Inr v \<longrightarrow> normalize_csp up (split_ws (strip c)) orig = Inr v) \<and>
         (t_edge up p orig = Inr v \<longrightarrow> normalize_csp up (split_ws (strip c)) orig = Inr v) \<and>
         t_explorer up (p\<lparr>csp := cs\<rparr>) orig = t_explorer up p orig \<and>
         t_opera_mini up (p\<lparr>csp := cs\<rparr>) orig = t_opera_mini up p orig"
  using t_firefox_modern [OF assms] t_chrome_modern [OF assms] t_edge_modern [OF assms]
    legacy_only_ignore_csp
  by blast

lemma ev_modern_sample:
  "first_present (csp \<lparr>xfo = [''DENY''], csp = [''WARN_NO_HEADER'', quoted ''none'', ''*'']\<rparr>)
     = Some (quoted ''none'')"
  "t_firefox urlparse_sample \<lparr>xfo = [''DENY''], csp = [''WARN_NO_HEADER'', quoted ''none'', ''*'']\<rparr>
     ''https://example.com'' = Inr (SList [Str ''none''])"
  "t_chrome urlparse_sample \<lparr>xfo = [''DENY''], csp = [''WARN_NO_HEADER'', quoted ''none'', ''*'']\<rparr>
     ''https://example.com'' = Inr (SList [Str ''none''])"
  "t_edge urlparse_sample \<lparr>xfo = [''DENY''], csp = [''WARN_NO_HEADER'', quoted ''none'', ''*'']\<rparr>
     ''https://example.com'' = Inr (SList [Str ''none''])"
  by code_simp+

theorem modern_header_first_wins_witness:
  "first_present (csp \<lparr>xfo = [''DENY''], csp = [''WARN_NO_HEADER'', quoted ''none'', ''*'']\<rparr>)
     = Some (quoted ''none'') \<and>
   t_firefox urlparse_sample \<lparr>xfo = [''DENY''], csp = [''WARN_NO_HEADER'', quoted ''none'', ''*'']\<rparr>
     ''https://example.com'' = Inr (SList [Str ''none'']) \<and>
   t_chrome urlparse_sample \<lparr>xfo = [''DENY''], csp = [''WARN_NO_HEADER'', quoted ''none'', ''*'']\<rparr>
     ''https://example.com'' = Inr (SList [Str ''none'']) \<and>
   t_edge urlparse_sample \<lparr>xfo = [''DENY''], csp = [''WARN_NO_HEADER'', quoted ''none'', ''*'']\<rparr>
     ''https://example.com'' = Inr (SList [Str ''none'']) \<and>
   normalize_csp urlparse_sample (split_ws (strip (quoted ''none''))) ''https://example.com''
     = Inr (SList [Str ''none''])"
  using modern_header_first_wins
    [OF ev_modern_sample(1), of urlparse_sample "''https://example.com''" "SList [Str ''none'']"]
    ev_modern_sample
  by blast

text \<open>
  Internet Explorer and Opera Mini with a modern header \<open>'none'\<close> that normalises to
  \<open>['none']\<close> and no legacy header: both return \<open>['*']\<close>.
\<close>

theorem explorer_ignores_modern_counterexample:
  "first_present (csp \<lparr>xfo = [], csp = [quoted ''none'']\<rparr>) = Some (quoted ''none'') \<and>
   normalize_csp urlparse_sample (split_ws (strip (quoted ''none''))) ''https://example.com''
     = Inr (SList [Str ''none'']) \<and>
   t_explorer urlparse_sample \<lparr>xfo = [], csp = [quoted ''none'']\<rparr> ''https://example.com''
     = Inr (SList [Str ''*'']) \<and>
   t_opera_mini urlparse_sample \<lparr>xfo = [], csp = [quoted ''none'']\<rparr> ''https://example.com''
     = Inr (SList [Str ''*''])"
  by code_simp

subsection \<open>The shape of the enforced value\<close>

lemma csp_exps_length: "csp_exps up uo v = Inr es \<Longrightarrow> length es = length v"
  by (induction v arbitrary: es) (auto simp: ebind_eq_Inr)

lemma normalize_csp_valid:
  assumes "up (page_url orig) = Inr uo" and "is_valid_origin uo"
    and "normalize_csp up v orig = Inr n"
  shows "\<exists>es. n = SList es \<and> length es = length v"
  using assms by (auto simp: normalize_csp_def ebind_eq_Inr dest: csp_exps_length)

lemma modern_shape:
  assumes "up (page_url orig) = Inr uo" and "is_valid_origin uo"
    and "collect_csp up cs orig = Inr ns" and "0 < length ns"
  shows "\<exists>es. ns ! 0 = SList es \<and>
           (es = [] \<longleftrightarrow> (\<exists>c. first_present cs = Some c \<and> (\<forall>ch \<in> set c. isspace ch)))"
proof -
  from collect_csp_first [OF assms(3)] assms(4) obtain c where
    c: "first_present cs = Some c" "normalize_csp up (split_ws (strip c)) orig = Inr (ns ! 0)"
    by (cases "first_present cs") auto
  from normalize_csp_valid [OF assms(1,2) c(2)] obtain es where
    es: "ns ! 0 = SList es" "length es = length (split_ws (strip c))" by blast
  from es(2) have "es = [] \<longleftrightarrow> split_ws (strip c) = []" by auto
  with c(1) es(1) show ?thesis by (simp add: tokens_Nil)
qed

lemma legacy_shape:
  assumes "collect_csp up cs orig = Inr []"
  shows "\<not> (\<exists>c. first_present cs = Some c \<and> (\<forall>ch \<in> set c. isspace ch))"
  using collect_csp_first [OF assms] by (cases "first_present cs") auto

lemma t_firefox_shape:
  assumes "up (page_url orig) = Inr uo" and "is_valid_origin uo" and "t_firefox up p orig = Inr v"
  shows "\<exists>es. v = SList es \<and>
           (es = [] \<longleftrightarrow> (\<exists>c. first_present (csp p) = Some c \<and> (\<forall>ch \<in> set c. isspace ch)))"
proof (cases "collect_csp up (csp p) orig")
  case (Inl e)
  with assms(3) show ?thesis
    by (simp add: t_firefox_def ebind_def split: sum.splits)
next
  case ns: (Inr ns)
  show ?thesis
  proof (cases "0 < length ns")
    case True
    with ns assms(3) have "v = ns ! 0"
      by (simp add: t_firefox_def ebind_def split: sum.splits)
    with True modern_shape [OF assms(1,2) ns] show ?thesis by simp
  next
    case False
    with ns legacy_shape have "\<not> (\<exists>c. first_present (csp p) = Some c \<and> (\<forall>ch \<in> set c. isspace ch))"
      by simp
    moreover from False ns assms(3) have "\<exists>e. v = SList [e]"
      by (auto simp: t_firefox_def ebind_def split: sum.splits if_splits)
    ultimately show ?thesis by auto
  qed
qed

lemma t_chrome_shape:
  assumes "up (page_url orig) = Inr uo" and "is_valid_origin uo" and "t_chrome up p orig = Inr v"
  shows "\<exists>es. v = SList es \<and>
           (es = [] \<longleftrightarrow> (\<exists>c. first_present (csp p) = Some c \<and> (\<forall>ch \<in> set c. isspace ch)))"
proof (cases "collect_csp up (csp p) orig")
  case (Inl e)
  with assms(3) show ?thesis
    by (simp add: t_chrome_def ebind_def split: sum.splits)
next
  case ns: (Inr ns)
  show ?thesis
  proof (cases "0 < length ns")
    case True
    with ns assms(3) have "v = ns ! 0"
      by (simp add: t_chrome_def ebind_def split: sum.splits)
    with True modern_shape [OF assms(1,2) ns] show ?thesis by simp
  next
    case False
    with ns legacy_shape have "\<not> (\<exists>c. first_present (csp p) = Some c \<and> (\<forall>ch \<in> set c. isspace ch))"
      by simp
    moreover from False ns assms(3) have "\<exists>e. v = SList [e]"
      by (auto simp: t_chrome_def ebind_def split: sum.splits if_splits)
    ultimately show ?thesis by auto
  qed
qed

lemma t_edge_shape:
  assumes "up (page_url orig) = Inr uo" and "is_valid_origin uo" and "t_edge up p orig = Inr v"
  shows "\<exists>es. v = SList es \<and>
           (es = [] \<longleftrightarrow> (\<exists>c. first_present (csp p) = Some c \<and> (\<forall>ch \<in> set c. isspace ch)))"
proof (cases "collect_csp up (csp p) orig")
  case (Inl e)
  with assms(3) show ?thesis
    by (simp add: t_edge_def ebind_def split: sum.splits)
next
  case ns: (Inr ns)
  show ?thesis
  proof (cases "0 < length ns")
    case True
    with ns assms(3) have "v = ns ! 0"
      by (simp add: t_edge_def ebind_def split: sum.splits)
    with True modern_shape [OF assms(1,2) ns] show ?thesis by simp
  next
    case False
    with ns legacy_shape have "\<not> (\<exists>c. first_present (csp p) = Some c \<and> (\<forall>ch \<in> set c. isspace ch))"
      by simp
    moreover from False ns assms(3) have "\<exists>e. v = SList [e]"
      by (auto simp: t_edge_def ebind_def split: sum.splits if_splits)
    ultimately show ?thesis by auto
  qed
qed

lemma legacy_only_shape:
  "t_explorer up p orig = Inr v \<Longrightarrow> \<exists>e. v = SList [e]"
  "t_opera_mini up p orig = Inr v \<Longrightarrow> \<exists>e. v = SList [e]"
  by (auto simp: t_explorer_def t_opera_mini_def ebind_eq_Inr split: if_splits)

lemma no_header_default:
  assumes "first_present (xfo p) = None" and "first_present (csp p) = None"
  shows "t_firefox up p orig = Inr (SList [Str ''*''])"
    and "t_chrome up p orig = Inr (SList [Str ''*''])"
    and "t_edge up p orig = Inr (SList [Str ''*''])"
    and "t_explorer up p orig = Inr (SList [Str ''*''])"
    and "t_opera_mini up p orig = Inr (SList [Str ''*''])"
  using assms
  by (simp_all add: t_firefox_def t_chrome_def t_edge_def t_explorer_def t_opera_mini_def
       collect_csp_absent collect_xfo_absent first_present_split)

text \<open>
  C2, as the code has it. For a valid page origin, every value a translator returns is
  a list of expressions. Internet Explorer and Opera Mini return one expression.
  Firefox, the Chrome family and Edge return the empty list exactly when the first
  present modern header is empty or all whitespace, and a non-empty list otherwise. When
  no legacy and no modern header is present, all five return \<open>['*']\<close>.
\<close>

theorem enforced_semantics_shape:
  assumes "up (page_url orig) = Inr uo" and "is_valid_origin uo"
  shows "(t_firefox up p orig = Inr v \<longrightarrow>
            (\<exists>es. v = SList es \<and>
               (es = [] \<longleftrightarrow> (\<exists>c. first_present (csp p) = Some c \<and> (\<forall>ch \<in> set c. isspace ch))))) \<and>
         (t_chrome up p orig = Inr v \<longrightarrow>
            (\<exists>es. v = SList es \<and>
               (es = [] \<longleftrightarrow> (\<exists>c. first_present (csp p) = Some c \<and> (\<forall>ch \<in> set c. isspace ch))))) \<and>
         (t_edge up p orig = Inr v \<longrightarrow>
            (\<exists>es. v = SList es \<and>
               (es = [] \<longleftrightarrow> (\<exists>c. first_present (csp p) = Some c \<and> (\<forall>ch \<in> set c. isspace ch))))) \<and>
         (t_explorer up p orig = Inr v \<longrightarrow> (\<exists>e. v = SList [e])) \<and>
         (t_opera_mini up p orig = Inr v \<longrightarrow> (\<exists>e. v = SList [e])) \<and>
         (first_present (xfo p) = None \<and> first_present (csp p) = None \<longrightarrow>
            t_firefox up p orig = Inr (SList [Str ''*'']) \<and>
            t_chrome up p orig = Inr (SList [Str ''*'']) \<and>
            t_edge up p orig = Inr (SList [Str ''*'']) \<and>
            t_explorer up p orig = Inr (SList [Str ''*'']) \<and>
            t_opera_mini up p orig = Inr (SList [Str ''*'']))"
proof -
  have 1: "t_firefox up p orig = Inr v \<longrightarrow>
            (\<exists>es. v = SList es \<and>
               (es = [] \<longleftrightarrow> (\<exists>c. first_present (csp p) = Some c \<and> (\<forall>ch \<in> set c. isspace ch))))"
    using t_firefox_shape [where up = up and orig = orig, OF assms] by (rule impI)
  have 2: "t_chrome up p orig = Inr v \<longrightarrow>
            (\<exists>es. v = SList es \<and>
               (es = [] \<longleftrightarrow> (\<exists>c. first_present (csp p) = Some c \<and> (\<forall>ch \<in> set c. isspace ch))))"
    using t_chrome_shape [where up = up and orig = orig, OF assms] by (rule impI)
  have 3: "t_edge up p orig = Inr v \<longrightarrow>
            (\<exists>es. v = SList es \<and>
               (es = [] \<longleftrightarrow> (\<exists>c. first_present (csp p) = Some c \<and> (\<forall>ch \<in> set c. isspace ch))))"
    using t_edge_shape [where up = up and orig = orig, OF assms] by (rule impI)
  have 4: "t_explorer up p orig = Inr v \<longrightarrow> (\<exists>e. v = SList [e])"
    using legacy_only_shape(1) by (rule impI)
  have 5: "t_opera_mini up p orig = Inr v \<longrightarrow> (\<exists>e. v = SList [e])"
    using legacy_only_shape(2) by (rule impI)
  have 6: "first_present (xfo p) = None \<and> first_present (csp p) = None \<longrightarrow>
            t_firefox up p orig = Inr (SList [Str ''*'']) \<and>
            t_chrome up p orig = Inr (SList [Str ''*'']) \<and>
            t_edge up p orig = Inr (SList [Str ''*'']) \<and>
            t_explorer up p orig = Inr (SList [Str ''*'']) \<and>
            t_opera_mini up p orig = Inr (SList [Str ''*''])"
    by (simp add: no_header_default)
  show ?thesis by (intro conjI 1 2 3 4 5 6)
qed

lemma ev_shape_sample:
  "urlparse_sample (page_url ''https://example.com'')
     = Inr \<lparr>scheme = ''https'', hostname = Some ''example.com''\<rparr>"
  "is_valid_origin \<lparr>scheme = ''https'', hostname = Some ''example.com''\<rparr>"
  "first_present (csp \<lparr>xfo = [''deny''], csp = [''  '']\<rparr>) = Some ''  ''"
  "isspace CHR '' ''"
  "t_firefox urlparse_sample \<lparr>xfo = [''deny''], csp = [''  '']\<rparr> ''https://example.com'' = Inr (SList [])"
  "t_chrome urlparse_sample \<lparr>xfo = [''deny''], csp = [''  '']\<rparr> ''https://example.com'' = Inr (SList [])"
  "t_edge urlparse_sample \<lparr>xfo = [''deny''], csp = [''  '']\<rparr> ''https://example.com'' = Inr (SList [])"
  "t_explorer urlparse_sample \<lparr>xfo = [''deny''], csp = [''  '']\<rparr> ''https://example.com''
     = Inr (SList [Str ''none''])"
  "t_opera_mini urlparse_sample \<lparr>xfo = [''deny''], csp = [''  '']\<rparr> ''https://example.com''
     = Inr (SList [Str ''none''])"
  "first_present (xfo \<lparr>xfo = [''WARN_NO_HEADER''], csp = [''WARN_NO_HEADER'']\<rparr>) = None"
  "first_present (csp \<lparr>xfo = [''WARN_NO_HEADER''], csp = [''WARN_NO_HEADER'']\<rparr>) = None"
  by code_simp+

theorem enforced_semantics_shape_witness:
  "urlparse_sample (page_url ''https://example.com'')
     = Inr \<lparr>scheme = ''https'', hostname = Some ''example.com''\<rparr> \<and>
   is_valid_origin \<lparr>scheme = ''https'', hostname = Some ''example.com''\<rparr> \<and>
   first_present (csp \<lparr>xfo = [''deny''], csp = [''  '']\<rparr>) = Some ''  '' \<and>
   isspace CHR '' '' \<and>
   t_firefox urlparse_sample \<lparr>xfo = [''deny''], csp = [''  '']\<rparr> ''https://example.com'' = Inr (SList []) \<and>
   t_chrome urlparse_sample \<lparr>xfo = [''deny''], csp = [''  '']\<rparr> ''https://example.com'' = Inr (SList []) \<and>
   t_edge urlparse_sample \<lparr>xfo = [''deny''], csp = [''  '']\<rparr> ''https://example.com'' = Inr (SList []) \<and>
   t_explorer urlparse_sample \<lparr>xfo = [''deny''], csp = [''  '']\<rparr> ''https://example.com''
     = Inr (SList [Str ''none'']) \<and>
   t_opera_mini urlparse_sample \<lparr>xfo = [''deny''], csp = [''  '']\<rparr> ''https://example.com''
     = Inr (SList [Str ''none'']) \<and>
   first_present (xfo \<lparr>xfo = [''WARN_NO_HEADER''], csp = [''WARN_NO_HEADER'']\<rparr>) = None \<and>
   first_present (csp \<lparr>xfo = [''WARN_NO_HEADER''], csp = [''WARN_NO_HEADER'']\<rparr>) = None \<and>
   t_firefox urlparse_sample \<lparr>xfo = [''WARN_NO_HEADER''], csp = [''WARN_NO_HEADER'']\<rparr>
     ''https://example.com'' = Inr (SList [Str ''*'']) \<and>
   t_opera_mini urlparse_sample \<lparr>xfo = [''WARN_NO_HEADER''], csp = [''WARN_NO_HEADER'']\<rparr>
     ''https://example.com'' = Inr (SList [Str ''*''])"
proof -
  note absent = enforced_semantics_shape
      [where up = urlparse_sample and orig = "''https://example.com''"
         and p = "\<lparr>xfo = [''WARN_NO_HEADER''], csp = [''WARN_NO_HEADER'']\<rparr>",
       OF ev_shape_sample(1,2)]
  note blank = enforced_semantics_shape
      [where up = urlparse_sample and orig = "''https://example.com''"
         and p = "\<lparr>xfo = [''deny''], csp = [''  '']\<rparr>" and v = "SList []",
       OF ev_shape_sample(1,2)]
  from absent ev_shape_sample(10,11) have
    "t_firefox urlparse_sample \<lparr>xfo = [''WARN_NO_HEADER''], csp = [''WARN_NO_HEADER'']\<rparr>
       ''https://example.com'' = Inr (SList [Str ''*''])"
    "t_opera_mini urlparse_sample \<lparr>xfo = [''WARN_NO_HEADER''], csp = [''WARN_NO_HEADER'']\<rparr>
       ''https://example.com'' = Inr (SList [Str ''*''])"
    by simp_all
  moreover from blank ev_shape_sample(5) have "\<exists>c. first_present
      (csp \<lparr>xfo = [''deny''], csp = [''  '']\<rparr>) = Some c \<and> (\<forall>ch \<in> set c. isspace ch)"
    by simp
  ultimately show ?thesis using ev_shape_sample by (intro conjI) assumption+
qed

text \<open>
  A modern header that is empty or blank, on a valid page origin: Firefox, the Chrome
  family and Edge return the empty list, not \<open>['*']\<close>.
\<close>

theorem empty_modern_header_counterexample:
  "urlparse_sample (page_url ''https://example.com'')
     = Inr \<lparr>scheme = ''https'', hostname = Some ''example.com''\<rparr> \<and>
   is_valid_origin \<lparr>scheme = ''https'', hostname = Some ''example.com''\<rparr> \<and>
   parse_csp [] = Some [] \<and>
   t_firefox urlparse_sample \<lparr>xfo = [], csp = [[]]\<rparr> ''https://example.com'' = Inr (SList []) \<and>
   t_chrome urlparse_sample \<lparr>xfo = [], csp = [''   '']\<rparr> ''https://example.com'' = Inr (SList []) \<and>
   t_edge urlparse_sample \<lparr>xfo = [''deny''], csp = [[]]\<rparr> ''https://example.com'' = Inr (SList [])"
  by code_simp

subsection \<open>Exceptions of the translators, and an invalid page origin\<close>

text \<open>Every exception a translator raises is one that \<open>urlparse\<close> raised.\<close>

lemma csp_exp_raise: "csp_exp up uo t = Inl e \<Longrightarrow> \<exists>s. up s = Inl e"
  unfolding csp_exp_def Let_def
  by (auto simp: ebind_eq_Inl split: if_splits)

lemma csp_exps_raise: "csp_exps up uo ts = Inl e \<Longrightarrow> \<exists>s. up s = Inl e"
  by (induction ts) (auto simp: ebind_eq_Inl dest: csp_exp_raise)

lemma normalize_csp_raise: "normalize_csp up v orig = Inl e \<Longrightarrow> \<exists>s. up s = Inl e"
  unfolding normalize_csp_def
  by (auto simp: ebind_eq_Inl split: if_splits dest: csp_exps_raise)

lemma collect_xfo_raise: "collect_xfo up xs orig = Inl e \<Longrightarrow> \<exists>s. up s = Inl e"
  by (induction xs) (auto simp: ebind_eq_Inl split: option.splits dest: normalize_xfo_raise)

lemma collect_csp_raise: "collect_csp up cs orig = Inl e \<Longrightarrow> \<exists>s. up s = Inl e"
  by (induction cs) (auto simp: ebind_eq_Inl split: option.splits dest: normalize_csp_raise)

lemma valid_origin_host: "is_valid_origin uo \<Longrightarrow> hostname uo \<noteq> None"
  by (cases "hostname uo") (auto simp: is_valid_origin_def is_valid_origin_try_def)

lemma normalize_xfo_host:
  "normalize_xfo up v orig = Inr x \<Longrightarrow> has_host (exp_firefox x) \<and> has_host (exp_chrome x)"
  unfolding normalize_xfo_def Let_def
  by (auto simp: ebind_eq_Inr split: if_splits dest: valid_origin_host)

lemma collect_xfo_host:
  "collect_xfo up xs orig = Inr ns \<Longrightarrow>
     \<forall>x \<in> set ns. has_host (exp_firefox x) \<and> has_host (exp_chrome x)"
  by (induction xs arbitrary: ns)
     (auto simp: ebind_eq_Inr split: option.splits dest: normalize_xfo_host)

lemma policy_exp_legacy: "policy_exp (exp_firefox x)" "policy_exp (exp_chrome x)"
  by (cases x; simp)+

lemma translators_raise:
  "t_firefox up p orig = Inl e \<Longrightarrow> \<exists>s. up s = Inl e"
  "t_chrome up p orig = Inl e \<Longrightarrow> \<exists>s. up s = Inl e"
  "t_edge up p orig = Inl e \<Longrightarrow> \<exists>s. up s = Inl e"
  "t_explorer up p orig = Inl e \<Longrightarrow> \<exists>s. up s = Inl e"
  "t_opera_mini up p orig = Inl e \<Longrightarrow> \<exists>s. up s = Inl e"
proof -
  have ff: "\<exists>r. meet_all exp_firefox (Str ''*'') xs = Inr r"
    if "collect_xfo up ys orig = Inr xs" for xs ys
    using collect_xfo_host [OF that] by (intro meet_all_returns) (simp_all add: policy_exp_legacy)
  have ch: "\<exists>r. meet_all exp_chrome (Str ''*'') xs = Inr r"
    if "collect_xfo up ys orig = Inr xs" for xs ys
    using collect_xfo_host [OF that] by (intro meet_all_returns) (simp_all add: policy_exp_legacy)
  show "t_firefox up p orig = Inl e \<Longrightarrow> \<exists>s. up s = Inl e"
    unfolding t_firefox_def
    by (auto simp: ebind_eq_Inl split: if_splits dest: collect_xfo_raise collect_csp_raise dest!: ff)
  show "t_chrome up p orig = Inl e \<Longrightarrow> \<exists>s. up s = Inl e"
    unfolding t_chrome_def
    by (auto simp: ebind_eq_Inl split: if_splits dest: collect_xfo_raise collect_csp_raise dest!: ch)
  show "t_edge up p orig = Inl e \<Longrightarrow> \<exists>s. up s = Inl e"
    unfolding t_edge_def
    by (auto simp: ebind_eq_Inl split: if_splits dest: collect_xfo_raise collect_csp_raise)
  show "t_explorer up p orig = Inl e \<Longrightarrow> \<exists>s. up s = Inl e"
    unfolding t_explorer_def
    by (auto simp: ebind_eq_Inl split: if_splits dest: collect_xfo_raise)
  show "t_opera_mini up p orig = Inl e \<Longrightarrow> \<exists>s. up s = Inl e"
    unfolding t_opera_mini_def
    by (auto simp: ebind_eq_Inl split: if_splits dest: collect_xfo_raise)
qed

text \<open>
  With an invalid page origin both normalisers return JUNK. The legacy rules turn it
  into \<open>'*'\<close>; a present modern header makes Firefox, the Chrome family and Edge
  return the string "JUNK" itself.
\<close>

lemma invalid_origin_junk:
  assumes "up (page_url orig) = Inr uo" and "\<not> is_valid_origin uo"
  shows "normalize_xfo up v orig = Inr XJunk" and "normalize_csp up t orig = Inr (SStr ''JUNK'')"
  using assms by (simp_all add: normalize_xfo_def normalize_csp_def)

lemma invalid_origin_collect:
  assumes "up (page_url orig) = Inr uo" and "\<not> is_valid_origin uo"
  shows "\<exists>ns. collect_xfo up xs orig = Inr ns \<and> set ns \<subseteq> {XJunk} \<and> (ns = [] \<longleftrightarrow> first_present xs = None)"
    and "\<exists>ns. collect_csp up cs orig = Inr ns \<and> set ns \<subseteq> {SStr ''JUNK''} \<and> (ns = [] \<longleftrightarrow> first_present cs = None)"
proof -
  show "\<exists>ns. collect_xfo up xs orig = Inr ns \<and> set ns \<subseteq> {XJunk} \<and> (ns = [] \<longleftrightarrow> first_present xs = None)"
    by (induction xs) (auto simp: parse_xfo_def invalid_origin_junk [where up = up and orig = orig, OF assms])
  show "\<exists>ns. collect_csp up cs orig = Inr ns \<and> set ns \<subseteq> {SStr ''JUNK''} \<and> (ns = [] \<longleftrightarrow> first_present cs = None)"
    by (induction cs) (auto simp: parse_csp_def invalid_origin_junk [where up = up and orig = orig, OF assms])
qed

lemma meet_all_junk:
  assumes "f XJunk = Str ''*''" and "set ns \<subseteq> {XJunk}"
  shows "meet_all f (Str ''*'') ns = Inr (Str ''*'')"
  using assms(2) by (induction ns) (auto simp: assms(1) meet_def leq_exp_def)

lemma invalid_origin_translators:
  assumes "up (page_url orig) = Inr uo" and "\<not> is_valid_origin uo"
  shows "t_firefox up p orig = Inr (if first_present (csp p) = None then SList [Str ''*''] else SStr ''JUNK'')"
    and "t_chrome up p orig = Inr (if first_present (csp p) = None then SList [Str ''*''] else SStr ''JUNK'')"
    and "t_edge up p orig = Inr (if first_present (csp p) = None then SList [Str ''*''] else SStr ''JUNK'')"
    and "t_explorer up p orig = Inr (SList [Str ''*''])"
    and "t_opera_mini up p orig = Inr (SList [Str ''*''])"
proof -
  obtain xs where xs: "collect_xfo up (xfo p) orig = Inr xs" "set xs \<subseteq> {XJunk}"
    using invalid_origin_collect(1) [where up = up and orig = orig, OF assms] by blast
  obtain ys where ys: "collect_xfo up (concat (map (split_chr CHR '','') (xfo p))) orig = Inr ys"
      "set ys \<subseteq> {XJunk}"
    using invalid_origin_collect(1) [where up = up and orig = orig, OF assms] by blast
  obtain ns where ns: "collect_csp up (csp p) orig = Inr ns" "set ns \<subseteq> {SStr ''JUNK''}"
      "ns = [] \<longleftrightarrow> first_present (csp p) = None"
    using invalid_origin_collect(2) [where up = up and orig = orig, OF assms] by blast
  have hd_ns: "ns \<noteq> [] \<Longrightarrow> ns ! 0 = SStr ''JUNK''" using ns(2) by (cases ns) auto
  have hd_xs: "xs \<noteq> [] \<Longrightarrow> xs ! 0 = XJunk" using xs(2) by (cases xs) auto
  have m1: "meet_all exp_firefox (Str ''*'') ys = Inr (Str ''*'')"
    by (rule meet_all_junk [OF _ ys(2)]) simp
  have m2: "meet_all exp_chrome (Str ''*'') ys = Inr (Str ''*'')"
    by (rule meet_all_junk [OF _ ys(2)]) simp
  show "t_firefox up p orig = Inr (if first_present (csp p) = None then SList [Str ''*''] else SStr ''JUNK'')"
    using ns(3) hd_ns by (auto simp: t_firefox_def ys(1) ns(1) m1)
  show "t_chrome up p orig = Inr (if first_present (csp p) = None then SList [Str ''*''] else SStr ''JUNK'')"
    using ns(3) hd_ns by (auto simp: t_chrome_def ys(1) ns(1) m2)
  show "t_edge up p orig = Inr (if first_present (csp p) = None then SList [Str ''*''] else SStr ''JUNK'')"
    using ns(3) hd_ns hd_xs by (auto simp: t_edge_def xs(1) ns(1))
  show "t_explorer up p orig = Inr (SList [Str ''*''])"
    using hd_xs by (auto simp: t_explorer_def xs(1))
  show "t_opera_mini up p orig = Inr (SList [Str ''*''])"
    using hd_xs by (auto simp: t_opera_mini_def xs(1))
qed

text \<open>
  C5, on the page origin \<open>ftp://example.com\<close>. Both normalisers return JUNK and no
  call raises. With the legacy header alone the translators return \<open>['*']\<close>. With the
  modern header \<open>'none'\<close>, Firefox, the Chrome family and Edge return the string "JUNK"
  and not a list of expressions; \<open>leq_val\<close> then compares its four characters, so
  \<open>['*']\<close> is not below it and the report is inconsistent.
\<close>

theorem junk_modern_value_returned_raw:
  "urlparse_sample (page_url ''ftp://example.com'')
     = Inr \<lparr>scheme = ''ftp'', hostname = Some ''example.com''\<rparr> \<and>
   is_valid_origin \<lparr>scheme = ''ftp'', hostname = Some ''example.com''\<rparr> = False \<and>
   normalize_xfo urlparse_sample ''deny'' ''ftp://example.com'' = Inr XJunk \<and>
   normalize_csp urlparse_sample [quoted ''none''] ''ftp://example.com'' = Inr (SStr ''JUNK'') \<and>
   t_explorer urlparse_sample \<lparr>xfo = [''deny''], csp = []\<rparr> ''ftp://example.com''
     = Inr (SList [Str ''*'']) \<and>
   t_firefox urlparse_sample \<lparr>xfo = [''deny''], csp = []\<rparr> ''ftp://example.com''
     = Inr (SList [Str ''*'']) \<and>
   t_firefox urlparse_sample \<lparr>xfo = [], csp = [quoted ''none'']\<rparr> ''ftp://example.com''
     = Inr (SStr ''JUNK'') \<and>
   t_chrome urlparse_sample \<lparr>xfo = [], csp = [quoted ''none'']\<rparr> ''ftp://example.com''
     = Inr (SStr ''JUNK'') \<and>
   t_edge urlparse_sample \<lparr>xfo = [], csp = [quoted ''none'']\<rparr> ''ftp://example.com''
     = Inr (SStr ''JUNK'') \<and>
   leq_val (SList [Str ''*'']) (SStr ''JUNK'') = Inr False \<and>
   is_inconsistent \<lparr>sem_xfo = [SList [Str ''*'']], sem_csp = [SStr ''JUNK'']\<rparr> = Inr True"
  by code_simp

subsection \<open>The inconsistency analyzer\<close>









lemma ua_distinct:
  "IE \<noteq> FIREFOX" "IE \<noteq> CHROME" "IE \<noteq> SAFARI" "IE \<noteq> SAFARI_IOS" "IE \<noteq> SAMSUNG" "IE \<noteq> UC_BROWSER"
  "OPERA_MINI \<noteq> FIREFOX" "OPERA_MINI \<noteq> CHROME" "OPERA_MINI \<noteq> SAFARI" "OPERA_MINI \<noteq> SAFARI_IOS"
  "OPERA_MINI \<noteq> SAMSUNG" "OPERA_MINI \<noteq> UC_BROWSER" "OPERA_MINI \<noteq> IE"
  "CHROME \<noteq> FIREFOX" "CHROME \<noteq> IE" "CHROME \<noteq> OPERA_MINI"
  by (simp_all add: IE_def FIREFOX_def CHROME_def SAFARI_def SAFARI_IOS_def SAMSUNG_def
        UC_BROWSER_def OPERA_MINI_def)

lemma translate_known:
  "translate up pb IE orig = t_explorer up pb orig"
  "translate up pb OPERA_MINI orig = t_opera_mini up pb orig"
  "translate up pb CHROME orig = t_chrome up pb orig"
  by (simp_all add: translate_def ua_distinct)

lemma just_xfo_known: "just_xfo IE" "just_xfo OPERA_MINI" "\<not> just_xfo CHROME"
  by (simp_all add: just_xfo_def ua_distinct)

lemma ev_parse_B:
  "parse_xfo ''allow-from https://google.com'' = Some ''allow-from https://google.com''"
  "lower ''allow-from https://google.com'' = ''allow-from https://google.com''"
  "split_chr CHR '' '' ''allow-from https://google.com'' = [''allow-from'', ''https://google.com'']"
  "parse_csp ''*'' = Some [''*'']"
  "lower ''*'' = ''*''"
  "page_url ''https://example.com'' = ''https://example.com''"
  "is_valid_origin \<lparr>scheme = ''https'', hostname = Some ''example.com''\<rparr>"
  "is_valid_origin \<lparr>scheme = ''https'', hostname = Some ''google.com''\<rparr>"
  by code_simp+

lemma scenario_B_values:
  assumes "up ''https://example.com'' = Inr \<lparr>scheme = ''https'', hostname = Some ''example.com''\<rparr>"
    and "up ''https://google.com'' = Inr \<lparr>scheme = ''https'', hostname = Some ''google.com''\<rparr>"
  shows "normalize_xfo up ''allow-from https://google.com'' ''https://example.com''
           = Inr (XAllowFrom ''https'' (Some ''google.com''))"
    and "normalize_csp up [''*''] ''https://example.com'' = Inr (SList [Str ''*''])"
  by (simp_all add: normalize_xfo_def normalize_csp_def csp_exp_def ev_parse_B assms
        startswith_def item_def Let_def)

text \<open>
  C3. Scenario B on the page origin \<open>https://example.com\<close>: Internet Explorer and
  Opera Mini get the legacy header \<open>allow-from https://google.com\<close> (whatever their
  modern headers), the Chrome family gets the modern header \<open>*\<close>. Internet Explorer
  enforces the origin of google.com and Opera Mini enforces \<open>'*'\<close>, so the legacy list
  of the report holds two distinct values, the modern list holds one, and
  \<open>is_inconsistent\<close> returns True. \<open>urlparse\<close> is taken to return the scheme and the
  host of the two URLs.
\<close>

theorem scenario_B_inconsistent:
  assumes "up ''https://example.com'' = Inr \<lparr>scheme = ''https'', hostname = Some ''example.com''\<rparr>"
    and "up ''https://google.com'' = Inr \<lparr>scheme = ''https'', hostname = Some ''google.com''\<rparr>"
  shows "\<exists>r. find_inconsistencies up
              [(IE, \<lparr>xfo = [''allow-from https://google.com''], csp = c1\<rparr>),
               (OPERA_MINI, \<lparr>xfo = [''allow-from https://google.com''], csp = c2\<rparr>),
               (CHROME, \<lparr>xfo = [], csp = [''*'']\<rparr>)] ''https://example.com'' = Inr r \<and>
             sem_xfo r = [SList [Tup ''https'' (Some ''google.com'')], SList [Str ''*'']] \<and>
             sem_csp r = [SList [Str ''*'']] \<and>
             1 < card (set (sem_xfo r)) \<and>
             is_inconsistent r = Inr True"
proof -
  have ie: "t_explorer up \<lparr>xfo = [''allow-from https://google.com''], csp = c1\<rparr> ''https://example.com''
      = Inr (SList [Tup ''https'' (Some ''google.com'')])"
    by (simp add: t_explorer_def ev_parse_B scenario_B_values [OF assms])
  have om: "t_opera_mini up \<lparr>xfo = [''allow-from https://google.com''], csp = c2\<rparr> ''https://example.com''
      = Inr (SList [Str ''*''])"
    by (simp add: t_opera_mini_def ev_parse_B scenario_B_values [OF assms])
  have ch: "t_chrome up \<lparr>xfo = [], csp = [''*'']\<rparr> ''https://example.com'' = Inr (SList [Str ''*''])"
    by (simp add: t_chrome_def ev_parse_B scenario_B_values [OF assms])
  have r: "find_inconsistencies up
              [(IE, \<lparr>xfo = [''allow-from https://google.com''], csp = c1\<rparr>),
               (OPERA_MINI, \<lparr>xfo = [''allow-from https://google.com''], csp = c2\<rparr>),
               (CHROME, \<lparr>xfo = [], csp = [''*'']\<rparr>)] ''https://example.com''
      = Inr \<lparr>sem_xfo = [SList [Tup ''https'' (Some ''google.com'')], SList [Str ''*'']],
              sem_csp = [SList [Str ''*'']]\<rparr>"
    by (simp add: find_inconsistencies_def just_xfo_known getitem_def ua_distinct
          translate_known ie om ch no_dup_def)
  have "is_inconsistent \<lparr>sem_xfo = [SList [Tup ''https'' (Some ''google.com'')], SList [Str ''*'']],
              sem_csp = [SList [Str ''*'']]\<rparr> = Inr True"
    by (simp add: is_inconsistent_def)
  with r show ?thesis by simp
qed

lemma ev_sample_B:
  "urlparse_sample ''https://example.com'' = Inr \<lparr>scheme = ''https'', hostname = Some ''example.com''\<rparr>"
  "urlparse_sample ''https://google.com'' = Inr \<lparr>scheme = ''https'', hostname = Some ''google.com''\<rparr>"
  by code_simp+

theorem scenario_B_inconsistent_witness:
  "urlparse_sample ''https://example.com'' = Inr \<lparr>scheme = ''https'', hostname = Some ''example.com''\<rparr> \<and>
   urlparse_sample ''https://google.com'' = Inr \<lparr>scheme = ''https'', hostname = Some ''google.com''\<rparr> \<and>
   (\<exists>r. find_inconsistencies urlparse_sample
              [(IE, \<lparr>xfo = [''allow-from https://google.com''], csp = []\<rparr>),
               (OPERA_MINI, \<lparr>xfo = [''allow-from https://google.com''], csp = [''WARN_NO_HEADER'']\<rparr>),
               (CHROME, \<lparr>xfo = [], csp = [''*'']\<rparr>)] ''https://example.com'' = Inr r \<and>
             sem_xfo r = [SList [Tup ''https'' (Some ''google.com'')], SList [Str ''*'']] \<and>
             sem_csp r = [SList [Str ''*'']] \<and>
             1 < card (set (sem_xfo r)) \<and>
             is_inconsistent r = Inr True)"
  using scenario_B_inconsistent [OF ev_sample_B, of "[]" "[''WARN_NO_HEADER'']"] ev_sample_B
  by (intro conjI) assumption+


end
